theory Spec2Isabelle
  imports Complex_Main
begin

section \<open>Intensity classification (11_calculate_typhoon_intensity.py)\<close>

text \<open>
  Wind speeds, coordinates and pressures are Python floats in the source. They are
  modelled as real numbers: the classifier only compares its argument with constants,
  and a comparison of floats is exact. The decimal constants of the source stand for
  themselves.

  \<^verbatim>\<open>
  def get_intensity_category(wind_speed_ms):
      if wind_speed_ms < 10.8:            return "Low Pressure (<10.8)", "gray"
      elif 10.8 <= wind_speed_ms <= 17.1: return "Tropical Depression (TD)", "skyblue"
      elif 17.2 <= wind_speed_ms <= 24.4: return "Tropical Storm (TS)", "blue"
      elif 24.5 <= wind_speed_ms <= 32.6: return "Severe Tropical Storm (STS)", "green"
      elif 32.7 <= wind_speed_ms <= 41.4: return "Typhoon (TY)", "yellow"
      elif 41.5 <= wind_speed_ms <= 50.9: return "Severe Typhoon (STY)", "orange"
      else:                               return "Super Typhoon (SuperTY)", "red"
  \<close>
\<close>

definition get_intensity_category :: "real \<Rightarrow> string \<times> string" where
  "get_intensity_category wind_speed_ms =
     (if wind_speed_ms < 10.8 then (''Low Pressure (<10.8)'', ''gray'')
      else if 10.8 \<le> wind_speed_ms \<and> wind_speed_ms \<le> 17.1
        then (''Tropical Depression (TD)'', ''skyblue'')
      else if 17.2 \<le> wind_speed_ms \<and> wind_speed_ms \<le> 24.4
        then (''Tropical Storm (TS)'', ''blue'')
      else if 24.5 \<le> wind_speed_ms \<and> wind_speed_ms \<le> 32.6
        then (''Severe Tropical Storm (STS)'', ''green'')
      else if 32.7 \<le> wind_speed_ms \<and> wind_speed_ms \<le> 41.4
        then (''Typhoon (TY)'', ''yellow'')
      else if 41.5 \<le> wind_speed_ms \<and> wind_speed_ms \<le> 50.9
        then (''Severe Typhoon (STY)'', ''orange'')
      else (''Super Typhoon (SuperTY)'', ''red''))"

text \<open>
  The ordinal position of a category name in the ordering
  none < TD < TS < STS < TY < STY < SuperTY of the specification.
\<close>

definition category_rank :: "string \<Rightarrow> nat" where
  "category_rank c =
     (if c = ''Low Pressure (<10.8)'' then 0
      else if c = ''Tropical Depression (TD)'' then 1
      else if c = ''Tropical Storm (TS)'' then 2
      else if c = ''Severe Tropical Storm (STS)'' then 3
      else if c = ''Typhoon (TY)'' then 4
      else if c = ''Severe Typhoon (STY)'' then 5
      else 6)"

section \<open>Gridded datasets and label-based window selection\<close>

text \<open>
  A dataset is the content of the NetCDF file as the scripts read it: the three
  coordinate axes and the variables, each a field over (time label, latitude position,
  longitude position). A variable may be absent from the file. Time labels are taken to
  be unique, so that \<^verbatim>\<open>sel(time=t)\<close> is the field at label \<open>t\<close>, and every
  cell holds a number (no missing value).
\<close>

datatype error = KeyError | ValueError | IndexError

type_synonym timestamp = nat

type_synonym field = "timestamp \<Rightarrow> nat \<Rightarrow> nat \<Rightarrow> real"

record dataset =
  ds_time :: "timestamp list"
  ds_latitude :: "real list"
  ds_longitude :: "real list"
  mean_sea_level_pressure :: "field option"
  u_component_of_wind_10m :: "field option"
  v_component_of_wind_10m :: "field option"

text \<open>
  Modelled from the spec: the selection \<^verbatim>\<open>.sel(axis=slice(start, stop))\<close> of the
  array library, which is not part of the repository. The specification describes the
  grid as "addressable by coordinate value (not index) with inclusive range selection".
  The library slices by label in the order of the index: on an increasing index the
  slice keeps the positions whose label lies in \<open>[start, stop]\<close>, on a decreasing index
  those whose label lies in \<open>[stop, start]\<close>; an index that is both (constant or of one
  entry) counts as increasing. An index in no order is reported as \<open>KeyError\<close>.
\<close>

definition slice_indexer :: "real list \<Rightarrow> real \<Rightarrow> real \<Rightarrow> error + nat list" where
  "slice_indexer index start stop =
     (if sorted index
        then Inr (filter (\<lambda>i. start \<le> index ! i \<and> index ! i \<le> stop) [0..<length index])
      else if sorted (rev index)
        then Inr (filter (\<lambda>i. stop \<le> index ! i \<and> index ! i \<le> start) [0..<length index])
      else Inl KeyError)"

text \<open>
  The direction of the latitude slice, as both scripts choose it:
  \<^verbatim>\<open>
  lat_slice = slice(max(lat_min, lat_max), min(lat_min, lat_max))
  if ds.latitude[0] < ds.latitude[-1]: # Ascending
       lat_slice = slice(min(lat_min, lat_max), max(lat_min, lat_max))
  \<close>
  Reading \<^verbatim>\<open>ds.latitude[0]\<close> on an empty axis raises.
\<close>

definition lat_slice :: "dataset \<Rightarrow> real \<Rightarrow> real \<Rightarrow> error + real \<times> real" where
  "lat_slice ds lat_min lat_max =
     (if ds_latitude ds = [] then Inl IndexError
      else if hd (ds_latitude ds) < last (ds_latitude ds)
        then Inr (min lat_min lat_max, max lat_min lat_max)
      else Inr (max lat_min lat_max, min lat_min lat_max))"

text \<open>
  The cells of the search box around a position, as pairs of positions on the two axes
  in row-major order (latitude outer, longitude inner): the cells of
  \<^verbatim>\<open>var.sel(time=t, latitude=lat_slice, longitude=lon_slice)\<close> with
  \<^verbatim>\<open>lon_slice = slice(lon_min, lon_max)\<close>. The scripts repeat these lines for
  the pressure window and for the wind window; the model shares them.
\<close>

definition sel_box :: "dataset \<Rightarrow> real \<Rightarrow> real \<Rightarrow> real \<Rightarrow> error + (nat \<times> nat) list" where
  "sel_box ds current_lat current_lon radius =
     (case lat_slice ds (current_lat - radius) (current_lat + radius) of
        Inl e \<Rightarrow> Inl e
      | Inr (start, stop) \<Rightarrow>
          (case slice_indexer (ds_latitude ds) start stop of
             Inl e \<Rightarrow> Inl e
           | Inr lat_idx \<Rightarrow>
               (case slice_indexer (ds_longitude ds) (current_lon - radius) (current_lon + radius) of
                  Inl e \<Rightarrow> Inl e
                | Inr lon_idx \<Rightarrow> Inr (List.product lat_idx lon_idx))))"

section \<open>Locating the pressure minimum (8_track_typhoon.py)\<close>

text \<open>
  \<^verbatim>\<open>argmin\<close> returns the first cell, in row-major order, that holds the least
  value; \<^verbatim>\<open>min\<close> is computed on its own, as in the source.
\<close>

fun argmin_from :: "('a \<Rightarrow> real) \<Rightarrow> 'a \<Rightarrow> 'a list \<Rightarrow> 'a" where
  "argmin_from f best [] = best"
| "argmin_from f best (x # xs) = argmin_from f (if f x < f best then x else best) xs"

definition cell_value :: "field \<Rightarrow> timestamp \<Rightarrow> nat \<times> nat \<Rightarrow> real" where
  "cell_value var t c = var t (fst c) (snd c)"

text \<open>
  One pass of the loop body up to the record that is appended:
  \<^verbatim>\<open>
  local_mslp = mslp.sel(time=t, latitude=lat_slice, longitude=lon_slice)
  if local_mslp.size == 0: break
  min_idx = local_mslp.argmin(dim=['latitude', 'longitude'])
  new_lat = local_mslp.latitude[min_idx['latitude']].item()
  new_lon = local_mslp.longitude[min_idx['longitude']].item()
  min_pressure = local_mslp.min().item()
  \<close>
  \<open>None\<close> stands for the \<^verbatim>\<open>break\<close>. The positions of a cell are positions on the
  axes of the whole grid; the label the source reads from the axis of the selection at
  the position inside the selection is the same label.
\<close>

definition find_center ::
  "dataset \<Rightarrow> field \<Rightarrow> timestamp \<Rightarrow> real \<Rightarrow> real \<Rightarrow> real \<Rightarrow> error + (real \<times> real \<times> real) option" where
  "find_center ds mslp t current_lat current_lon radius =
     (case sel_box ds current_lat current_lon radius of
        Inl e \<Rightarrow> Inl e
      | Inr local_mslp \<Rightarrow>
          (case local_mslp of
             [] \<Rightarrow> Inr None
           | c # cs \<Rightarrow>
               (let min_idx = argmin_from (cell_value mslp t) c cs;
                    new_lat = ds_latitude ds ! fst min_idx;
                    new_lon = ds_longitude ds ! snd min_idx;
                    min_pressure = fold min (map (cell_value mslp t) cs) (cell_value mslp t c)
                in Inr (Some (new_lat, new_lon, min_pressure)))))"

record position_row =
  time :: timestamp
  latitude :: real
  longitude :: real

record track_row = position_row +
  min_pressure :: real

text \<open>
  The loop \<^verbatim>\<open>for t in times\<close> of \<^verbatim>\<open>track_typhoon\<close>, with the current
  position and the list \<^verbatim>\<open>track_data\<close> threaded through.
\<close>

fun track_loop ::
  "dataset \<Rightarrow> field \<Rightarrow> real \<Rightarrow> timestamp list \<Rightarrow> real \<Rightarrow> real \<Rightarrow> track_row list
     \<Rightarrow> error + track_row list" where
  "track_loop ds mslp radius [] current_lat current_lon track_data = Inr track_data"
| "track_loop ds mslp radius (t # ts) current_lat current_lon track_data =
     (case find_center ds mslp t current_lat current_lon radius of
        Inl e \<Rightarrow> Inl e
      | Inr None \<Rightarrow> Inr track_data
      | Inr (Some (new_lat, new_lon, min_p)) \<Rightarrow>
          track_loop ds mslp radius ts new_lat new_lon
            (track_data @
              [\<lparr>time = t, latitude = new_lat, longitude = new_lon, min_pressure = min_p\<rparr>]))"

definition track_typhoon :: "dataset \<Rightarrow> real \<Rightarrow> real \<Rightarrow> real \<Rightarrow> error + track_row list" where
  "track_typhoon ds start_lat start_lon search_radius_deg =
     (case mean_sea_level_pressure ds of
        None \<Rightarrow> Inl KeyError
      | Some mslp \<Rightarrow> track_loop ds mslp search_radius_deg (ds_time ds) start_lat start_lon [])"

section \<open>Intensity along the track (11_calculate_typhoon_intensity.py)\<close>

record intensity_row = position_row +
  min_pressure_pa :: real
  max_wind_speed_ms :: real
  intensity_category :: string
  intensity_color :: string

text \<open>\<^verbatim>\<open>wind_speed = np.sqrt(u**2 + v**2)\<close>, cell by cell.\<close>

definition wind_speed :: "field \<Rightarrow> field \<Rightarrow> field" where
  "wind_speed u v = (\<lambda>t i j. sqrt ((u t i j)\<^sup>2 + (v t i j)\<^sup>2))"

definition tracking_radius :: real where
  "tracking_radius = 5.0"

text \<open>
  The second half of the loop body of \<^verbatim>\<open>calculate_intensity\<close>:
  \<^verbatim>\<open>
  local_wind = wind_speed.sel(time=t, latitude=w_lat_slice, longitude=w_lon_slice)
  if local_wind.size > 0:
      raw_max_wind = local_wind.max().item()
      max_wind = raw_max_wind * correction_factor
  else:
      max_wind = 0.0
  \<close>
\<close>

definition max_wind_of :: "field \<Rightarrow> timestamp \<Rightarrow> (nat \<times> nat) list \<Rightarrow> real \<Rightarrow> real" where
  "max_wind_of speed t local_wind correction_factor =
     (case local_wind of
        [] \<Rightarrow> 0
      | c # cs \<Rightarrow>
          (let raw_max_wind = fold max (map (cell_value speed t) cs) (cell_value speed t c)
           in raw_max_wind * correction_factor))"

fun intensity_loop ::
  "dataset \<Rightarrow> field \<Rightarrow> field \<Rightarrow> real \<Rightarrow> real \<Rightarrow> timestamp list \<Rightarrow> real \<Rightarrow> real
     \<Rightarrow> intensity_row list \<Rightarrow> error + intensity_row list" where
  "intensity_loop ds mslp speed search_radius_deg correction_factor [] current_lat current_lon
     results = Inr results"
| "intensity_loop ds mslp speed search_radius_deg correction_factor (t # ts) current_lat
     current_lon results =
     (case find_center ds mslp t current_lat current_lon tracking_radius of
        Inl e \<Rightarrow> Inl e
      | Inr None \<Rightarrow> Inr results
      | Inr (Some (center_lat, center_lon, min_p)) \<Rightarrow>
          (case sel_box ds center_lat center_lon search_radius_deg of
             Inl e \<Rightarrow> Inl e
           | Inr local_wind \<Rightarrow>
               (let max_wind = max_wind_of speed t local_wind correction_factor;
                    cat = get_intensity_category max_wind
                in intensity_loop ds mslp speed search_radius_deg correction_factor ts
                     center_lat center_lon
                     (results @
                       [\<lparr>time = t, latitude = center_lat, longitude = center_lon,
                         min_pressure_pa = min_p, max_wind_speed_ms = max_wind,
                         intensity_category = fst cat, intensity_color = snd cat\<rparr>]))))"

text \<open>
  \<^verbatim>\<open>calculate_intensity\<close>: the wind components are looked for first
  (\<^verbatim>\<open>raise ValueError\<close>), then the pressure variable is read.
\<close>

definition calculate_intensity ::
  "dataset \<Rightarrow> real \<Rightarrow> real \<Rightarrow> real \<Rightarrow> real \<Rightarrow> error + intensity_row list" where
  "calculate_intensity ds start_lat start_lon search_radius_deg correction_factor =
     (case (u_component_of_wind_10m ds, v_component_of_wind_10m ds) of
        (Some u, Some v) \<Rightarrow>
          (case mean_sea_level_pressure ds of
             None \<Rightarrow> Inl KeyError
           | Some mslp \<Rightarrow>
               intensity_loop ds mslp (wind_speed u v) search_radius_deg correction_factor
                 (ds_time ds) start_lat start_lon [])
      | _ \<Rightarrow> Inl ValueError)"

section \<open>Grid assembly (4_combine_netcdf.py)\<close>

text \<open>
  A file as \<^verbatim>\<open>xr.open_dataset\<close> returns it: the path it was read from
  (\<^verbatim>\<open>ds.encoding['source']\<close>), the names of its dimensions and, once the time
  dimension has been added, the labels of that dimension.
\<close>

type_synonym datetime = "nat \<times> nat \<times> nat \<times> nat \<times> nat"

record nc_dataset =
  source :: string
  dims :: "string list"
  time_index :: "datetime list"

text \<open>\<^verbatim>\<open>os.path.basename\<close>: what follows the last slash.\<close>

definition basename :: "string \<Rightarrow> string" where
  "basename path = rev (takeWhile (\<lambda>c. c \<noteq> CHR ''/'') (rev path))"

text \<open>
  \<^verbatim>\<open>str.replace(old, new)\<close> for a non-empty \<open>old\<close>: every occurrence, from the
  left and without overlap. \<open>skip\<close> counts the characters of a match still to be
  dropped. The script only replaces the non-empty strings
  \<^verbatim>\<open>f"output_{file_type_to_process}_"\<close> and \<^verbatim>\<open>".nc"\<close>.
\<close>

fun replace_from :: "nat \<Rightarrow> string \<Rightarrow> string \<Rightarrow> string \<Rightarrow> string" where
  "replace_from skip old new [] = []"
| "replace_from skip old new (c # s) =
     (if 0 < skip then replace_from (skip - 1) old new s
      else if take (length old) (c # s) = old then new @ replace_from (length old - 1) old new s
      else c # replace_from 0 old new s)"

definition replace :: "string \<Rightarrow> string \<Rightarrow> string \<Rightarrow> string" where
  "replace s old new = replace_from 0 old new s"

text \<open>
  \<^verbatim>\<open>ds.expand_dims(time=[dt_object])\<close> of the array library raises
  \<^verbatim>\<open>ValueError\<close> when the dataset already has a dimension of that name.
\<close>

definition expand_dims_time :: "nc_dataset \<Rightarrow> datetime \<Rightarrow> error + nc_dataset" where
  "expand_dims_time ds dt_object =
     (if ''time'' \<in> set (dims ds) then Inl ValueError
      else Inr (ds\<lparr>dims := ''time'' # dims ds, time_index := [dt_object]\<rparr>))"

definition time_str_of :: "string \<Rightarrow> nc_dataset \<Rightarrow> string" where
  "time_str_of file_type_to_process ds =
     replace (replace (basename (source ds)) (''output_'' @ file_type_to_process @ ''_'') [])
       ''.nc'' []"

definition skip_warning :: "nc_dataset \<Rightarrow> string" where
  "skip_warning ds =
     ''Warning: Could not parse time from filename: '' @ basename (source ds) @ ''. Skipping.''"

text \<open>
  \<^verbatim>\<open>
  def add_time_coordinate(ds):
      filename = os.path.basename(ds.encoding['source'])
      time_str = filename.replace(f"output_{file_type_to_process}_", "").replace(".nc", "")
      try:
          dt_object = datetime.strptime(time_str, "%Y-%m-%d-%H-%M")
          return ds.expand_dims(time=[dt_object])
      except ValueError:
          print(f"Warning: Could not parse time from filename: {filename}. Skipping.")
          return None
  \<close>
  The library function \<^verbatim>\<open>datetime.strptime(_, "%Y-%m-%d-%H-%M")\<close> is a parameter:
  \<open>strptime s = None\<close> when it raises \<^verbatim>\<open>ValueError\<close>. The function returns the
  lines it prints together with its result; \<open>None\<close> is the skip marker.
\<close>

definition add_time_coordinate ::
  "(string \<Rightarrow> datetime option) \<Rightarrow> string \<Rightarrow> nc_dataset \<Rightarrow> string list \<times> nc_dataset option" where
  "add_time_coordinate strptime file_type_to_process ds =
     (case strptime (time_str_of file_type_to_process ds) of
        None \<Rightarrow> ([skip_warning ds], None)
      | Some dt_object \<Rightarrow>
          (case expand_dims_time ds dt_object of
             Inl e \<Rightarrow> ([skip_warning ds], None)
           | Inr expanded \<Rightarrow> ([], Some expanded)))"

text \<open>
  The script after the files have been opened:
  \<^verbatim>\<open>
  if not file_paths: ... exit()
  datasets = [add_time_coordinate(xr.open_dataset(fp)) for fp in file_paths]
  valid_datasets = [ds for ds in datasets if ds is not None]
  if not valid_datasets: ... exit()
  combined_ds = xr.concat(valid_datasets, dim="time")
  \<close>
  The combined dataset is given by the datasets it concatenates, in their order; \<open>None\<close>
  stands for \<^verbatim>\<open>exit()\<close>. The first component collects the warnings printed.
\<close>

definition valid_datasets ::
  "(string \<Rightarrow> datetime option) \<Rightarrow> string \<Rightarrow> nc_dataset list \<Rightarrow> nc_dataset list" where
  "valid_datasets strptime file_type_to_process opened =
     List.map_filter (\<lambda>ds. snd (add_time_coordinate strptime file_type_to_process ds)) opened"

definition combine_netcdf ::
  "(string \<Rightarrow> datetime option) \<Rightarrow> string \<Rightarrow> nc_dataset list
     \<Rightarrow> string list \<times> nc_dataset list option" where
  "combine_netcdf strptime file_type_to_process opened =
     (if opened = [] then ([], None)
      else
        (let warnings =
               concat (map (\<lambda>ds. fst (add_time_coordinate strptime file_type_to_process ds)) opened);
             valid = valid_datasets strptime file_type_to_process opened
         in if valid = [] then (warnings, None) else (warnings, Some valid)))"

section \<open>Vocabulary of the specification\<close>

text \<open>
  The search window in the words of the specification: the cells of the grid whose
  latitude and longitude lie within the half-width of the centre.
\<close>

definition in_square :: "dataset \<Rightarrow> real \<Rightarrow> real \<Rightarrow> real \<Rightarrow> nat \<times> nat \<Rightarrow> bool" where
  "in_square ds center_lat center_lon radius c \<longleftrightarrow>
     fst c < length (ds_latitude ds) \<and> snd c < length (ds_longitude ds) \<and>
     \<bar>ds_latitude ds ! fst c - center_lat\<bar> \<le> radius \<and>
     \<bar>ds_longitude ds ! snd c - center_lon\<bar> \<le> radius"

text \<open>
  The axes on which the slices of the scripts mean what they are meant to mean: the
  latitude axis is in the order the test \<^verbatim>\<open>ds.latitude[0] < ds.latitude[-1]\<close>
  takes it for, and the longitude axis is increasing.
\<close>

definition well_oriented :: "dataset \<Rightarrow> bool" where
  "well_oriented ds \<longleftrightarrow>
     ds_latitude ds \<noteq> [] \<and>
     (if hd (ds_latitude ds) < last (ds_latitude ds) then sorted (ds_latitude ds)
      else \<not> sorted (ds_latitude ds) \<and> sorted (rev (ds_latitude ds))) \<and>
     sorted (ds_longitude ds)"

text \<open>
  The cells a window selects, as the set of their labels and values: what is compared
  when one grid is stored in two orientations.
\<close>

definition window_cells ::
  "dataset \<Rightarrow> field \<Rightarrow> timestamp \<Rightarrow> real \<Rightarrow> real \<Rightarrow> real \<Rightarrow> error + (real \<times> real \<times> real) set" where
  "window_cells ds var t center_lat center_lon radius =
     map_sum id
       (\<lambda>cells. (\<lambda>c. (ds_latitude ds ! fst c, ds_longitude ds ! snd c, cell_value var t c)) ` set cells)
       (sel_box ds center_lat center_lon radius)"

text \<open>The same field stored with the rows (latitude) or the columns (longitude) reversed.\<close>

definition flip_rows :: "nat \<Rightarrow> field \<Rightarrow> field" where
  "flip_rows n var = (\<lambda>t i j. var t (n - 1 - i) j)"

definition flip_cols :: "nat \<Rightarrow> field \<Rightarrow> field" where
  "flip_cols m var = (\<lambda>t i j. var t i (m - 1 - j))"

definition flip_latitude :: "dataset \<Rightarrow> dataset" where
  "flip_latitude ds =
     ds\<lparr>ds_latitude := rev (ds_latitude ds),
        mean_sea_level_pressure :=
          map_option (flip_rows (length (ds_latitude ds))) (mean_sea_level_pressure ds),
        u_component_of_wind_10m :=
          map_option (flip_rows (length (ds_latitude ds))) (u_component_of_wind_10m ds),
        v_component_of_wind_10m :=
          map_option (flip_rows (length (ds_latitude ds))) (v_component_of_wind_10m ds)\<rparr>"

definition flip_longitude :: "dataset \<Rightarrow> dataset" where
  "flip_longitude ds =
     ds\<lparr>ds_longitude := rev (ds_longitude ds),
        mean_sea_level_pressure :=
          map_option (flip_cols (length (ds_longitude ds))) (mean_sea_level_pressure ds),
        u_component_of_wind_10m :=
          map_option (flip_cols (length (ds_longitude ds))) (u_component_of_wind_10m ds),
        v_component_of_wind_10m :=
          map_option (flip_cols (length (ds_longitude ds))) (v_component_of_wind_10m ds)\<rparr>"

text \<open>
  All cells of the grid, as pairs of positions on the two axes.
\<close>

definition grid_cells :: "dataset \<Rightarrow> (nat \<times> nat) list" where
  "grid_cells ds = List.product [0..<length (ds_latitude ds)] [0..<length (ds_longitude ds)]"


text \<open>
  A single, unambiguous pressure minimum inside the search window of one step, in the
  words of the specification: the cell \<open>m\<close> lies in the square around the current
  position and every other cell of the grid in that square holds a strictly larger
  pressure. Along a run the window of each step is centred on the minimum of the step
  before.
\<close>

definition single_minimum ::
  "dataset \<Rightarrow> field \<Rightarrow> timestamp \<Rightarrow> real \<Rightarrow> real \<Rightarrow> real \<Rightarrow> nat \<times> nat \<Rightarrow> bool" where
  "single_minimum ds mslp t current_lat current_lon radius m \<longleftrightarrow>
     in_square ds current_lat current_lon radius m \<and>
     list_all
       (\<lambda>c. \<not> in_square ds current_lat current_lon radius c \<or> c = m \<or>
            cell_value mslp t m < cell_value mslp t c)
       (grid_cells ds)"

fun single_minima ::
  "dataset \<Rightarrow> field \<Rightarrow> real \<Rightarrow> timestamp list \<Rightarrow> real \<Rightarrow> real \<Rightarrow> (nat \<times> nat) list \<Rightarrow> bool" where
  "single_minima ds mslp radius [] current_lat current_lon ms = (ms = [])"
| "single_minima ds mslp radius (t # ts) current_lat current_lon [] = False"
| "single_minima ds mslp radius (t # ts) current_lat current_lon (m # ms) =
     (single_minimum ds mslp t current_lat current_lon radius m \<and>
      single_minima ds mslp radius ts (ds_latitude ds ! fst m) (ds_longitude ds ! snd m) ms)"

text \<open>The columns of an intensity row that describe the track.\<close>

definition track_columns :: "intensity_row \<Rightarrow> timestamp \<times> real \<times> real \<times> real" where
  "track_columns row = (time row, latitude row, longitude row, min_pressure_pa row)"

text \<open>The row that one pass of the loop of \<^verbatim>\<open>calculate_intensity\<close> appends.\<close>

definition row_of ::
  "field \<Rightarrow> real \<Rightarrow> timestamp \<Rightarrow> real \<Rightarrow> real \<Rightarrow> real \<Rightarrow> (nat \<times> nat) list \<Rightarrow> intensity_row" where
  "row_of speed cf t cla clo mp local_wind =
     \<lparr>time = t, latitude = cla, longitude = clo, min_pressure_pa = mp,
       max_wind_speed_ms = max_wind_of speed t local_wind cf,
       intensity_category = fst (get_intensity_category (max_wind_of speed t local_wind cf)),
       intensity_color = snd (get_intensity_category (max_wind_of speed t local_wind cf))\<rparr>"

text \<open>
  A file whose name gives a time stamp, and the dataset that
  \<^verbatim>\<open>add_time_coordinate\<close> returns for it.
\<close>

definition parseable :: "(string \<Rightarrow> datetime option) \<Rightarrow> string \<Rightarrow> nc_dataset \<Rightarrow> bool" where
  "parseable strptime file_type_to_process ds \<longleftrightarrow>
     strptime (time_str_of file_type_to_process ds) \<noteq> None"

definition expanded :: "(string \<Rightarrow> datetime option) \<Rightarrow> string \<Rightarrow> nc_dataset \<Rightarrow> nc_dataset" where
  "expanded strptime file_type_to_process ds =
     ds\<lparr>dims := ''time'' # dims ds,
        time_index := [the (strptime (time_str_of file_type_to_process ds))]\<rparr>"

section \<open>A small grid and a small directory\<close>

text \<open>
  Two time steps on a grid of two latitudes (stored from north to south) and two
  longitudes. The pressure is least at the north-east cell at the first time and at the
  south-east cell at the second; the wind is 5 m/s on the northern row and 10 m/s on the
  southern one.
\<close>

definition example_mslp :: field where
  "example_mslp t i j =
     (if t = 0 then (if i = 0 \<and> j = 1 then 99000 else 100000 + real i + real j)
      else (if i = 1 \<and> j = 1 then 98500 else 100000 + real i + real j))"

definition example_u :: field where
  "example_u t i j = (if i = 0 then 3 else 6)"

definition example_v :: field where
  "example_v t i j = (if i = 0 then 4 else 8)"

definition example_grid :: dataset where
  "example_grid =
     \<lparr>ds_time = [0, 1], ds_latitude = [20, 18], ds_longitude = [120, 122],
      mean_sea_level_pressure = Some example_mslp,
      u_component_of_wind_10m = Some example_u,
      v_component_of_wind_10m = Some example_v\<rparr>"

definition example_track :: "track_row list" where
  "example_track =
     [\<lparr>time = 0, latitude = 20, longitude = 122, min_pressure = 99000\<rparr>,
      \<lparr>time = 1, latitude = 18, longitude = 122, min_pressure = 98500\<rparr>]"

definition example_rows :: "intensity_row list" where
  "example_rows =
     [\<lparr>time = 0, latitude = 20, longitude = 122, min_pressure_pa = 99000,
       max_wind_speed_ms = 7, intensity_category = ''Low Pressure (<10.8)'',
       intensity_color = ''gray''\<rparr>,
      \<lparr>time = 1, latitude = 18, longitude = 122, min_pressure_pa = 98500,
       max_wind_speed_ms = 14, intensity_category = ''Tropical Depression (TD)'',
       intensity_color = ''skyblue''\<rparr>]"

text \<open>
  Three files of one run; the name of the second carries no time stamp. The stand-in for
  the library's parser knows the two time stamps that occur.
\<close>

definition example_strptime :: "string \<Rightarrow> datetime option" where
  "example_strptime s =
     (if s = ''2018-10-01-06-00'' then Some (2018, 10, 1, 6, 0)
      else if s = ''2018-10-01-12-00'' then Some (2018, 10, 1, 12, 0)
      else None)"

definition example_files :: "nc_dataset list" where
  "example_files =
     [\<lparr>source = ''/out/output_surface_2018-10-01-06-00.nc'',
       dims = [''latitude'', ''longitude''], time_index = []\<rparr>,
      \<lparr>source = ''/out/output_surface_latest.nc'',
       dims = [''latitude'', ''longitude''], time_index = []\<rparr>,
      \<lparr>source = ''/out/output_surface_2018-10-01-12-00.nc'',
       dims = [''latitude'', ''longitude''], time_index = []\<rparr>]"

text \<open>
  A file of the same run whose name gives a time stamp and which already has a time
  dimension of its own.
\<close>

definition example_timed_file :: nc_dataset where
  "example_timed_file =
     \<lparr>source = ''/out/output_surface_2018-10-01-06-00.nc'',
      dims = [''time'', ''latitude'', ''longitude''], time_index = [(2018, 10, 1, 6, 0)]\<rparr>"

section \<open>Least and greatest value of a list\<close>

lemma argmin_from_mem: "argmin_from f b xs \<in> set (b # xs)"
  by (induction xs arbitrary: b) auto

lemma argmin_from_le: "x \<in> set (b # xs) \<Longrightarrow> f (argmin_from f b xs) \<le> f x"
proof (induction xs arbitrary: b x)
  case Nil
  then show ?case by simp
next
  case (Cons y ys)
  let ?b' = "if f y < f b then y else b"
  have best: "f (argmin_from f ?b' ys) \<le> f ?b'"
    by (rule Cons.IH) simp
  from Cons.prems consider "x = b" | "x = y" | "x \<in> set ys" by auto
  then show ?case
  proof cases
    case 1 with best show ?thesis by (auto split: if_splits)
  next
    case 2 with best show ?thesis by (auto split: if_splits)
  next
    case 3 then show ?thesis using Cons.IH [of x ?b'] by simp
  qed
qed

lemma fold_min_argmin: "fold min (map f xs) (f b) = f (argmin_from f b xs)"
proof (induction xs arbitrary: b)
  case Nil
  then show ?case by simp
next
  case (Cons y ys)
  have "min (f y) (f b) = f (if f y < f b then y else b)" by (simp add: min_def)
  then show ?case using Cons.IH [of "if f y < f b then y else b"] by simp
qed

lemma argmin_from_unique:
  assumes "m \<in> set (b # xs)" and "\<forall>x \<in> set (b # xs). x \<noteq> m \<longrightarrow> f m < f x"
  shows "argmin_from f b xs = m"
proof -
  have "f (argmin_from f b xs) \<le> f m" using assms(1) by (rule argmin_from_le)
  moreover have "argmin_from f b xs \<in> set (b # xs)" by (rule argmin_from_mem)
  ultimately show ?thesis using assms(2) by force
qed


section \<open>Label slices and the square window\<close>

lemma sorted_rev_hd_last: "sorted (rev xs) \<Longrightarrow> xs \<noteq> [] \<Longrightarrow> last xs \<le> hd (xs::real list)"
  by (cases xs) (auto simp: sorted_append)


lemma slice_indexer_sorted:
  "sorted index \<Longrightarrow> slice_indexer index start stop =
     Inr (filter (\<lambda>i. start \<le> index ! i \<and> index ! i \<le> stop) [0..<length index])"
  by (simp add: slice_indexer_def)

lemma slice_indexer_descending:
  "\<not> sorted index \<Longrightarrow> sorted (rev index) \<Longrightarrow> slice_indexer index start stop =
     Inr (filter (\<lambda>i. stop \<le> index ! i \<and> index ! i \<le> start) [0..<length index])"
  by (simp add: slice_indexer_def)

lemma slice_indexer_bound:
  "slice_indexer index start stop = Inr idx \<Longrightarrow> i \<in> set idx \<Longrightarrow> i < length index"
  by (auto simp: slice_indexer_def split: if_splits)

lemma slice_indexer_nonempty:
  assumes "slice_indexer index start stop = Inr idx" and "idx \<noteq> []"
  shows "set idx = {i. i < length index \<and> min start stop \<le> index ! i \<and> index ! i \<le> max start stop}"
proof -
  from assms(2) obtain i where i: "i \<in> set idx" by (cases idx) auto
  show ?thesis
  proof (cases "sorted index")
    case True
    with assms(1) have idx: "idx = filter (\<lambda>i. start \<le> index ! i \<and> index ! i \<le> stop) [0..<length index]"
      by (simp add: slice_indexer_def)
    with i have "start \<le> stop" by auto
    then show ?thesis unfolding idx by auto
  next
    case False
    with assms(1) have idx: "idx = filter (\<lambda>i. stop \<le> index ! i \<and> index ! i \<le> start) [0..<length index]"
      by (auto simp: slice_indexer_def split: if_splits)
    with i have "stop \<le> start" by auto
    then show ?thesis unfolding idx by auto
  qed
qed


lemma sel_box_parts:
  assumes "sel_box ds la lo r = Inr cells"
  obtains start stop lat_idx lon_idx where
    "lat_slice ds (la - r) (la + r) = Inr (start, stop)"
    "slice_indexer (ds_latitude ds) start stop = Inr lat_idx"
    "slice_indexer (ds_longitude ds) (lo - r) (lo + r) = Inr lon_idx"
    "cells = List.product lat_idx lon_idx"
  using assms by (auto simp: sel_box_def split: sum.splits prod.splits)

lemma sel_box_from_slices:
  assumes "lat_slice ds (la - r) (la + r) = Inr (start, stop)"
    and "slice_indexer (ds_latitude ds) start stop = Inr lat_idx"
    and "slice_indexer (ds_longitude ds) (lo - r) (lo + r) = lon_sel"
  shows "sel_box ds la lo r =
     (case lon_sel of Inl e \<Rightarrow> Inl e | Inr lon_idx \<Rightarrow> Inr (List.product lat_idx lon_idx))"
  using assms by (simp add: sel_box_def)

lemma lat_slice_bounds:
  assumes "lat_slice ds a b = Inr (start, stop)"
  shows "min start stop = min a b" and "max start stop = max a b" and "ds_latitude ds \<noteq> []"
  using assms by (auto simp: lat_slice_def split: if_splits)

lemma sel_box_bounds:
  assumes "sel_box ds la lo r = Inr cells" and "c \<in> set cells"
  shows "fst c < length (ds_latitude ds)" and "snd c < length (ds_longitude ds)"
proof -
  from assms(1) obtain start stop lat_idx lon_idx where
    li: "slice_indexer (ds_latitude ds) start stop = Inr lat_idx" and
    lj: "slice_indexer (ds_longitude ds) (lo - r) (lo + r) = Inr lon_idx" and
    cells: "cells = List.product lat_idx lon_idx"
    by (rule sel_box_parts)
  from assms(2) have "fst c \<in> set lat_idx" "snd c \<in> set lon_idx"
    unfolding cells by auto
  then show "fst c < length (ds_latitude ds)" and "snd c < length (ds_longitude ds)"
    using slice_indexer_bound [OF li] slice_indexer_bound [OF lj] by blast+
qed

lemma within_iff:
  "0 \<le> r \<Longrightarrow> (min (c - r) (c + r) \<le> x \<and> x \<le> max (c - r) (c + r)) \<longleftrightarrow> \<bar>x - c\<bar> \<le> (r::real)"
  by (simp add: min_def max_def abs_le_iff) linarith

lemma sel_box_square:
  assumes "sel_box ds la lo r = Inr cells" and "cells \<noteq> []" and "0 \<le> r"
  shows "set cells = {c. in_square ds la lo r c}"
proof -
  from assms(1) obtain start stop lat_idx lon_idx where
    ls: "lat_slice ds (la - r) (la + r) = Inr (start, stop)" and
    li: "slice_indexer (ds_latitude ds) start stop = Inr lat_idx" and
    lj: "slice_indexer (ds_longitude ds) (lo - r) (lo + r) = Inr lon_idx" and
    cells: "cells = List.product lat_idx lon_idx"
    by (rule sel_box_parts)
  from assms(2) have "set cells \<noteq> {}" by simp
  then have ne: "lat_idx \<noteq> []" "lon_idx \<noteq> []" unfolding cells by auto
  have lon: "set lon_idx = {j. j < length (ds_longitude ds) \<and> \<bar>ds_longitude ds ! j - lo\<bar> \<le> r}"
    unfolding slice_indexer_nonempty [OF lj ne(2)] by (simp add: within_iff [OF assms(3)])
  have lat: "set lat_idx = {i. i < length (ds_latitude ds) \<and> \<bar>ds_latitude ds ! i - la\<bar> \<le> r}"
    unfolding slice_indexer_nonempty [OF li ne(1)] lat_slice_bounds(1,2) [OF ls]
    by (simp add: within_iff [OF assms(3)])
  show ?thesis unfolding cells set_product lat lon by (auto simp: in_square_def)
qed

lemma sel_box_oriented:
  assumes "well_oriented ds" and "0 \<le> r"
  shows "\<exists>cells. sel_box ds la lo r = Inr cells \<and> set cells = {c. in_square ds la lo r c}"
proof -
  from assms(1) have ne: "ds_latitude ds \<noteq> []" and lon: "sorted (ds_longitude ds)"
    by (simp_all add: well_oriented_def)
  define lat_idx where
    "lat_idx = filter (\<lambda>i. la - r \<le> ds_latitude ds ! i \<and> ds_latitude ds ! i \<le> la + r)
       [0..<length (ds_latitude ds)]"
  define lon_idx where
    "lon_idx = filter (\<lambda>i. lo - r \<le> ds_longitude ds ! i \<and> ds_longitude ds ! i \<le> lo + r)
       [0..<length (ds_longitude ds)]"
  have mm: "min (la - r) (la + r) = la - r" "max (la - r) (la + r) = la + r"
    using assms(2) by simp_all
  have "\<exists>start stop. lat_slice ds (la - r) (la + r) = Inr (start, stop) \<and>
          slice_indexer (ds_latitude ds) start stop = Inr lat_idx"
  proof (cases "hd (ds_latitude ds) < last (ds_latitude ds)")
    case True
    with assms(1) have "sorted (ds_latitude ds)" by (simp add: well_oriented_def)
    then show ?thesis using True ne
      by (simp add: lat_slice_def mm slice_indexer_sorted lat_idx_def)
  next
    case False
    with assms(1) have "\<not> sorted (ds_latitude ds)" "sorted (rev (ds_latitude ds))"
      by (simp_all add: well_oriented_def)
    then show ?thesis using False ne
      by (simp add: lat_slice_def mm slice_indexer_descending lat_idx_def)
  qed
  moreover have "slice_indexer (ds_longitude ds) (lo - r) (lo + r) = Inr lon_idx"
    using lon by (simp add: slice_indexer_sorted lon_idx_def)
  ultimately have sel: "sel_box ds la lo r = Inr (List.product lat_idx lon_idx)"
    by (auto simp: sel_box_def)
  have iff: "\<And>x c. (c - r \<le> x \<and> x \<le> c + r) \<longleftrightarrow> \<bar>x - c\<bar> \<le> r"
    by arith
  have "set (List.product lat_idx lon_idx) = {c. in_square ds la lo r c}"
    unfolding set_product lat_idx_def lon_idx_def by (auto simp: in_square_def iff)
  with sel show ?thesis by blast
qed


lemma sel_box_Inr_iff:
  "(\<exists>cells. sel_box ds la lo r = Inr cells) \<longleftrightarrow>
     ds_latitude ds \<noteq> [] \<and> (sorted (ds_latitude ds) \<or> sorted (rev (ds_latitude ds))) \<and>
     (sorted (ds_longitude ds) \<or> sorted (rev (ds_longitude ds)))"
  by (auto simp: sel_box_def lat_slice_def slice_indexer_def split: sum.splits if_splits)

lemma sel_box_total:
  assumes "sel_box ds la lo r = Inr cells"
  obtains cells' where "sel_box ds la' lo' r' = Inr cells'"
  using assms sel_box_Inr_iff [of ds la lo r] sel_box_Inr_iff [of ds la' lo' r'] by blast


lemma sel_box_ds_time [simp]: "sel_box (ds\<lparr>ds_time := ts\<rparr>) la lo r = sel_box ds la lo r"
  by (simp add: sel_box_def lat_slice_def cong: sum.case_cong prod.case_cong)

lemma flip_latitude_axes [simp]:
  "ds_latitude (flip_latitude ds) = rev (ds_latitude ds)"
  "ds_longitude (flip_latitude ds) = ds_longitude ds"
  by (simp_all add: flip_latitude_def)

lemma mirrored_positions:
  fixes xs :: "real list"
  defines "n \<equiv> length xs"
  shows "set (filter (\<lambda>i. P (rev xs ! i)) [0..<n]) = (\<lambda>i. n - 1 - i) ` set (filter (\<lambda>i. P (xs ! i)) [0..<n])"
proof (intro set_eqI iffI)
  fix i assume "i \<in> set (filter (\<lambda>i. P (rev xs ! i)) [0..<n])"
  then have i: "i < n" and p: "P (rev xs ! i)" by simp_all
  from i have "rev xs ! i = xs ! (n - 1 - i)" by (simp add: rev_nth n_def)
  with p i have "n - 1 - i \<in> set (filter (\<lambda>i. P (xs ! i)) [0..<n])" by simp
  moreover from i have "i = n - 1 - (n - 1 - i)" by simp
  ultimately show "i \<in> (\<lambda>i. n - 1 - i) ` set (filter (\<lambda>i. P (xs ! i)) [0..<n])" by (rule rev_image_eqI)
next
  fix i assume "i \<in> (\<lambda>i. n - 1 - i) ` set (filter (\<lambda>i. P (xs ! i)) [0..<n])"
  then obtain k where k: "k < n" "P (xs ! k)" and i: "i = n - 1 - k" by auto
  from k(1) i have "i < n" by simp
  moreover from k(1) i have "rev xs ! i = xs ! k" by (simp add: rev_nth n_def)
  ultimately show "i \<in> set (filter (\<lambda>i. P (rev xs ! i)) [0..<n])" using k(2) by simp
qed

section \<open>One step of the locator\<close>

lemma find_center_empty:
  "sel_box ds la lo r = Inr [] \<Longrightarrow> find_center ds mslp t la lo r = Inr None"
  by (simp add: find_center_def)


lemma find_center_Some:
  assumes "find_center ds mslp t la lo r = Inr (Some (nla, nlo, mp))"
  obtains cells c where
    "sel_box ds la lo r = Inr cells" "c \<in> set cells"
    "nla = ds_latitude ds ! fst c" "nlo = ds_longitude ds ! snd c"
    "mp = cell_value mslp t c"
    "\<forall>c' \<in> set cells. cell_value mslp t c \<le> cell_value mslp t c'"
proof -
  from assms obtain c0 cs where sel: "sel_box ds la lo r = Inr (c0 # cs)"
    and nla: "nla = ds_latitude ds ! fst (argmin_from (cell_value mslp t) c0 cs)"
    and nlo: "nlo = ds_longitude ds ! snd (argmin_from (cell_value mslp t) c0 cs)"
    and mp: "mp = fold min (map (cell_value mslp t) cs) (cell_value mslp t c0)"
    by (auto simp: find_center_def Let_def split: sum.splits list.splits)
  let ?c = "argmin_from (cell_value mslp t) c0 cs"
  show ?thesis
  proof (rule that [of "c0 # cs" ?c])
    show "sel_box ds la lo r = Inr (c0 # cs)" by (rule sel)
    show "?c \<in> set (c0 # cs)" by (rule argmin_from_mem)
    show "nla = ds_latitude ds ! fst ?c" by (rule nla)
    show "nlo = ds_longitude ds ! snd ?c" by (rule nlo)
    show "mp = cell_value mslp t ?c" unfolding mp by (rule fold_min_argmin)
    show "\<forall>c' \<in> set (c0 # cs). cell_value mslp t ?c \<le> cell_value mslp t c'"
      by (intro ballI argmin_from_le)
  qed
qed

lemma find_center_ds_time [simp]:
  "find_center (ds\<lparr>ds_time := ts\<rparr>) mslp t la lo r = find_center ds mslp t la lo r"
  by (simp add: find_center_def cong: sum.case_cong list.case_cong)

lemma set_grid_cells:
  "set (grid_cells ds) = {c. fst c < length (ds_latitude ds) \<and> snd c < length (ds_longitude ds)}"
  by (auto simp: grid_cells_def)


lemma well_oriented_by_order:
  assumes "sorted (ds_longitude ds)"
    and "sorted (ds_latitude ds) \<or> sorted (rev (ds_latitude ds))"
    and "ds_latitude ds \<noteq> []" and "hd (ds_latitude ds) \<noteq> last (ds_latitude ds)"
  shows "well_oriented ds"
proof -
  have up: "hd (ds_latitude ds) \<le> last (ds_latitude ds)" if "sorted (ds_latitude ds)"
    using sorted_rev_hd_last [of "rev (ds_latitude ds)"] that assms(3)
    by (simp add: hd_rev last_rev)
  have down: "last (ds_latitude ds) \<le> hd (ds_latitude ds)" if "sorted (rev (ds_latitude ds))"
    using sorted_rev_hd_last [of "ds_latitude ds"] that assms(3) by simp
  show ?thesis
  proof (cases "hd (ds_latitude ds) < last (ds_latitude ds)")
    case True
    with down have "\<not> sorted (rev (ds_latitude ds))" by auto
    with assms(2) have "sorted (ds_latitude ds)" by simp
    with True assms(1,3) show ?thesis by (simp add: well_oriented_def)
  next
    case False
    with up assms(4) have "\<not> sorted (ds_latitude ds)" by auto
    with assms(2) have "sorted (rev (ds_latitude ds))" by simp
    with False \<open>\<not> sorted (ds_latitude ds)\<close> assms(1,3) show ?thesis
      by (simp add: well_oriented_def)
  qed
qed

lemma single_minimum_find_center:
  assumes "well_oriented ds" and "single_minimum ds mslp t la lo r m"
  shows "find_center ds mslp t la lo r =
     Inr (Some (ds_latitude ds ! fst m, ds_longitude ds ! snd m, cell_value mslp t m))"
proof -
  from assms(2) have inside: "in_square ds la lo r m"
    and others: "\<forall>c \<in> set (grid_cells ds). \<not> in_square ds la lo r c \<or> c = m \<or>
       cell_value mslp t m < cell_value mslp t c"
    by (simp_all add: single_minimum_def list_all_iff)
  from inside have "\<bar>ds_latitude ds ! fst m - la\<bar> \<le> r" by (simp add: in_square_def)
  then have r: "0 \<le> r" by arith
  from sel_box_oriented [OF assms(1) r, of la lo] obtain cells where
    sel: "sel_box ds la lo r = Inr cells" and sq: "set cells = {c. in_square ds la lo r c}"
    by blast
  from inside sq have m: "m \<in> set cells" by simp
  have strict: "\<forall>c \<in> set cells. c \<noteq> m \<longrightarrow> cell_value mslp t m < cell_value mslp t c"
  proof (intro ballI impI)
    fix c assume c: "c \<in> set cells" and ne: "c \<noteq> m"
    from c sq have ins: "in_square ds la lo r c" by simp
    then have "c \<in> set (grid_cells ds)" by (simp add: set_grid_cells in_square_def)
    with others ins ne show "cell_value mslp t m < cell_value mslp t c" by blast
  qed
  from m obtain c0 cs where cells: "cells = c0 # cs" by (cases cells) auto
  have arg: "argmin_from (cell_value mslp t) c0 cs = m"
    using m strict unfolding cells by (rule argmin_from_unique)
  have "fold min (map (cell_value mslp t) cs) (cell_value mslp t c0) = cell_value mslp t m"
    using fold_min_argmin [of "cell_value mslp t" cs c0] arg by simp
  with sel cells arg show ?thesis by (simp add: find_center_def)
qed


section \<open>The loop of the tracker\<close>

lemma track_loop_acc:
  "track_loop ds mslp r ts la lo acc = map_sum id ((@) acc) (track_loop ds mslp r ts la lo [])"
proof (induction ts arbitrary: la lo acc)
  case Nil
  show ?case by simp
next
  case (Cons t ts)
  show ?case
  proof (cases "find_center ds mslp t la lo r")
    case (Inl e)
    then show ?thesis by simp
  next
    case (Inr found)
    show ?thesis
    proof (cases found)
      case None
      with Inr show ?thesis by simp
    next
      case (Some v)
      obtain nla nlo mp where v: "v = (nla, nlo, mp)" by (cases v)
      let ?row = "\<lparr>time = t, latitude = nla, longitude = nlo, min_pressure = mp\<rparr>"
      have "track_loop ds mslp r (t # ts) la lo acc = track_loop ds mslp r ts nla nlo (acc @ [?row])"
        using Inr Some v by simp
      also have "\<dots> = map_sum id ((@) (acc @ [?row])) (track_loop ds mslp r ts nla nlo [])"
        by (rule Cons.IH)
      also have "\<dots> = map_sum id ((@) acc) (map_sum id ((@) [?row]) (track_loop ds mslp r ts nla nlo []))"
        by (cases "track_loop ds mslp r ts nla nlo []") simp_all
      also have "map_sum id ((@) [?row]) (track_loop ds mslp r ts nla nlo [])
                   = track_loop ds mslp r ts nla nlo [?row]"
        by (rule Cons.IH [symmetric])
      also have "track_loop ds mslp r ts nla nlo [?row] = track_loop ds mslp r (t # ts) la lo []"
        using Inr Some v by simp
      finally show ?thesis .
    qed
  qed
qed

lemma track_loop_Cons:
  assumes "find_center ds mslp t la lo r = Inr (Some (nla, nlo, mp))"
  shows "track_loop ds mslp r (t # ts) la lo [] =
     map_sum id ((#) \<lparr>time = t, latitude = nla, longitude = nlo, min_pressure = mp\<rparr>)
       (track_loop ds mslp r ts nla nlo [])"
proof -
  have "track_loop ds mslp r (t # ts) la lo [] =
      track_loop ds mslp r ts nla nlo [\<lparr>time = t, latitude = nla, longitude = nlo, min_pressure = mp\<rparr>]"
    using assms by simp
  also have "\<dots> = map_sum id ((@) [\<lparr>time = t, latitude = nla, longitude = nlo, min_pressure = mp\<rparr>])
       (track_loop ds mslp r ts nla nlo [])"
    by (rule track_loop_acc)
  finally show ?thesis by (simp add: append_Cons [abs_def])
qed

lemma track_loop_cases:
  assumes "track_loop ds mslp r (t # ts) la lo [] = Inr pts"
  obtains (stop) "find_center ds mslp t la lo r = Inr None" "pts = []"
  | (step) nla nlo mp pts' where
      "find_center ds mslp t la lo r = Inr (Some (nla, nlo, mp))"
      "track_loop ds mslp r ts nla nlo [] = Inr pts'"
      "pts = \<lparr>time = t, latitude = nla, longitude = nlo, min_pressure = mp\<rparr> # pts'"
proof (cases "find_center ds mslp t la lo r")
  case (Inl e)
  with assms show ?thesis by simp
next
  case (Inr found)
  show ?thesis
  proof (cases found)
    case None
    with Inr assms show ?thesis by (intro stop) simp_all
  next
    case (Some v)
    obtain nla nlo mp where v: "v = (nla, nlo, mp)" by (cases v)
    have fc: "find_center ds mslp t la lo r = Inr (Some (nla, nlo, mp))" using Inr Some v by simp
    from assms track_loop_Cons [OF fc, of ts]
    obtain pts' where "track_loop ds mslp r ts nla nlo [] = Inr pts'"
      "pts = \<lparr>time = t, latitude = nla, longitude = nlo, min_pressure = mp\<rparr> # pts'"
      by (cases "track_loop ds mslp r ts nla nlo []") auto
    with fc show ?thesis by (rule step)
  qed
qed

lemma track_loop_length:
  "track_loop ds mslp r ts la lo [] = Inr pts \<Longrightarrow> length pts \<le> length ts"
proof (induction ts arbitrary: la lo pts)
  case Nil
  then show ?case by simp
next
  case (Cons t ts)
  from Cons.prems show ?case
  proof (cases rule: track_loop_cases)
    case stop
    then show ?thesis by simp
  next
    case (step nla nlo mp pts')
    with Cons.IH [OF step(2)] show ?thesis by simp
  qed
qed

lemma track_loop_nth:
  assumes "track_loop ds mslp r ts la lo [] = Inr pts" and "k < length pts"
  shows "time (pts ! k) = ts ! k \<and>
     find_center ds mslp (ts ! k)
       (if k = 0 then la else latitude (pts ! (k - 1)))
       (if k = 0 then lo else longitude (pts ! (k - 1))) r
     = Inr (Some (latitude (pts ! k), longitude (pts ! k), min_pressure (pts ! k)))"
  using assms
proof (induction ts arbitrary: la lo pts k)
  case Nil
  then show ?case by simp
next
  case (Cons t ts)
  from Cons.prems(1) show ?case
  proof (cases rule: track_loop_cases)
    case stop
    with Cons.prems(2) show ?thesis by simp
  next
    case (step nla nlo mp pts')
    show ?thesis
    proof (cases k)
      case 0
      with step show ?thesis by simp
    next
      case (Suc k')
      with Cons.prems(2) step(3) have k': "k' < length pts'" by simp
      from Cons.IH [OF step(2) k'] show ?thesis
        using Suc step(3) by (cases k') simp_all
    qed
  qed
qed

lemma track_loop_stop_at:
  assumes "track_loop ds mslp r ts la lo [] = Inr pts" and "length pts = length ts"
    and "find_center ds mslp t (if pts = [] then la else latitude (last pts))
           (if pts = [] then lo else longitude (last pts)) r = Inr None"
  shows "track_loop ds mslp r (ts @ t # rest) la lo [] = Inr pts"
  using assms
proof (induction ts arbitrary: la lo pts)
  case Nil
  then show ?case by simp
next
  case (Cons t' ts)
  from Cons.prems(1) show ?case
  proof (cases rule: track_loop_cases)
    case stop
    with Cons.prems(2) show ?thesis by simp
  next
    case (step nla nlo mp pts')
    from Cons.prems(2) step(3) have len: "length pts' = length ts" by simp
    have "find_center ds mslp t (if pts' = [] then nla else latitude (last pts'))
           (if pts' = [] then nlo else longitude (last pts')) r = Inr None"
      using Cons.prems(3) step(3) by (cases "pts' = []") simp_all
    from Cons.IH [OF step(2) len this]
    show ?thesis using track_loop_Cons [OF step(1), of "ts @ t # rest"] step(3) by simp
  qed
qed

lemma track_loop_ds_time [simp]:
  "track_loop (ds\<lparr>ds_time := x\<rparr>) mslp r ts la lo acc = track_loop ds mslp r ts la lo acc"
  by (induction ts arbitrary: la lo acc) (simp_all split: sum.splits option.splits)

lemma single_minima_track_loop:
  assumes "well_oriented ds" and "single_minima ds mslp r ts la lo ms"
  shows "\<exists>pts. track_loop ds mslp r ts la lo [] = Inr pts \<and>
     map (\<lambda>p. (time p, latitude p, longitude p, min_pressure p)) pts =
     map2 (\<lambda>t m. (t, ds_latitude ds ! fst m, ds_longitude ds ! snd m, cell_value mslp t m)) ts ms \<and>
     length ms = length ts"
  using assms(2)
proof (induction ts arbitrary: la lo ms)
  case Nil
  then show ?case by simp
next
  case (Cons t ts)
  from Cons.prems obtain m ms' where ms: "ms = m # ms'" by (cases ms) auto
  from Cons.prems ms have one: "single_minimum ds mslp t la lo r m"
    and rest: "single_minima ds mslp r ts (ds_latitude ds ! fst m) (ds_longitude ds ! snd m) ms'"
    by simp_all
  from Cons.IH [OF rest] obtain pts' where
    run: "track_loop ds mslp r ts (ds_latitude ds ! fst m) (ds_longitude ds ! snd m) [] = Inr pts'"
    and cols: "map (\<lambda>p. (time p, latitude p, longitude p, min_pressure p)) pts' =
      map2 (\<lambda>t m. (t, ds_latitude ds ! fst m, ds_longitude ds ! snd m, cell_value mslp t m)) ts ms'"
    and len: "length ms' = length ts"
    by blast
  show ?case
    using track_loop_Cons [OF single_minimum_find_center [OF assms(1) one], of ts] run cols len ms
    by simp
qed

section \<open>The loop of the intensity estimate\<close>

lemma intensity_loop_acc:
  "intensity_loop ds mslp speed sr cf ts la lo acc =
     map_sum id ((@) acc) (intensity_loop ds mslp speed sr cf ts la lo [])"
proof (induction ts arbitrary: la lo acc)
  case Nil
  show ?case by simp
next
  case (Cons t ts)
  show ?case
  proof (cases "find_center ds mslp t la lo tracking_radius")
    case (Inl e)
    then show ?thesis by simp
  next
    case (Inr found)
    show ?thesis
    proof (cases found)
      case None
      with Inr show ?thesis by simp
    next
      case (Some v)
      obtain cla clo mp where v: "v = (cla, clo, mp)" by (cases v)
      show ?thesis
      proof (cases "sel_box ds cla clo sr")
        case (Inl e)
        with Inr Some v show ?thesis by simp
      next
        case lw: (Inr local_wind)
        define row where "row =
          \<lparr>time = t, latitude = cla, longitude = clo, min_pressure_pa = mp,
            max_wind_speed_ms = max_wind_of speed t local_wind cf,
            intensity_category = fst (get_intensity_category (max_wind_of speed t local_wind cf)),
            intensity_color = snd (get_intensity_category (max_wind_of speed t local_wind cf))\<rparr>"
        have step: "intensity_loop ds mslp speed sr cf (t # ts) la lo acc' =
            intensity_loop ds mslp speed sr cf ts cla clo (acc' @ [row])" for acc'
          using Inr Some v lw by (simp add: row_def Let_def)
        have "intensity_loop ds mslp speed sr cf (t # ts) la lo acc =
            map_sum id ((@) (acc @ [row])) (intensity_loop ds mslp speed sr cf ts cla clo [])"
          unfolding step by (rule Cons.IH)
        also have "\<dots> = map_sum id ((@) acc)
            (map_sum id ((@) [row]) (intensity_loop ds mslp speed sr cf ts cla clo []))"
          by (cases "intensity_loop ds mslp speed sr cf ts cla clo []") simp_all
        also have "map_sum id ((@) [row]) (intensity_loop ds mslp speed sr cf ts cla clo [])
            = intensity_loop ds mslp speed sr cf ts cla clo ([] @ [row])"
          unfolding append_Nil by (rule Cons.IH [symmetric])
        also have "\<dots> = intensity_loop ds mslp speed sr cf (t # ts) la lo []"
          by (rule step [symmetric])
        finally show ?thesis .
      qed
    qed
  qed
qed

lemma intensity_loop_Cons:
  assumes "find_center ds mslp t la lo tracking_radius = Inr (Some (cla, clo, mp))"
    and "sel_box ds cla clo sr = Inr local_wind"
  shows "intensity_loop ds mslp speed sr cf (t # ts) la lo [] =
     map_sum id ((#) (row_of speed cf t cla clo mp local_wind))
       (intensity_loop ds mslp speed sr cf ts cla clo [])"
proof -
  have "intensity_loop ds mslp speed sr cf (t # ts) la lo [] =
      intensity_loop ds mslp speed sr cf ts cla clo [row_of speed cf t cla clo mp local_wind]"
    using assms by (simp add: row_of_def Let_def)
  also have "\<dots> = map_sum id ((@) [row_of speed cf t cla clo mp local_wind])
       (intensity_loop ds mslp speed sr cf ts cla clo [])"
    by (rule intensity_loop_acc)
  finally show ?thesis by (simp add: append_Cons [abs_def])
qed




lemma track_columns_row_of [simp]:
  "track_columns (row_of speed cf t cla clo mp local_wind) = (t, cla, clo, mp)"
  by (simp add: track_columns_def row_of_def)

lemma intensity_loop_track_columns:
  "map_sum id (map track_columns) (intensity_loop ds mslp speed r1 f1 ts la lo []) =
   map_sum id (map track_columns) (intensity_loop ds mslp speed r2 f2 ts la lo [])"
proof (induction ts arbitrary: la lo)
  case Nil
  show ?case by simp
next
  case (Cons t ts)
  show ?case
  proof (cases "find_center ds mslp t la lo tracking_radius")
    case (Inl e)
    then show ?thesis by simp
  next
    case (Inr found)
    show ?thesis
    proof (cases found)
      case None
      with Inr show ?thesis by simp
    next
      case (Some w)
      obtain cla clo mp where w: "w = (cla, clo, mp)" by (cases w)
      have fc: "find_center ds mslp t la lo tracking_radius = Inr (Some (cla, clo, mp))"
        using Inr Some w by simp
      from fc obtain cells where "sel_box ds la lo tracking_radius = Inr cells"
        by (rule find_center_Some)
      then obtain lw1 lw2 where lw1: "sel_box ds cla clo r1 = Inr lw1"
        and lw2: "sel_box ds cla clo r2 = Inr lw2"
        using sel_box_total by metis
      show ?thesis
        unfolding intensity_loop_Cons [OF fc lw1] intensity_loop_Cons [OF fc lw2]
        using Cons.IH [of cla clo]
        by (cases "intensity_loop ds mslp speed r1 f1 ts cla clo []";
            cases "intensity_loop ds mslp speed r2 f2 ts cla clo []") simp_all
    qed
  qed
qed

section \<open>Grid assembly\<close>

lemma add_time_coordinate_cases:
  assumes "''time'' \<notin> set (dims ds)"
  shows "add_time_coordinate strptime ftype ds =
     (if parseable strptime ftype ds then ([], Some (expanded strptime ftype ds))
      else ([skip_warning ds], None))"
  using assms
  by (auto simp: add_time_coordinate_def parseable_def expanded_def expand_dims_time_def
      split: option.splits)

lemma valid_datasets_filter:
  assumes "\<forall>ds \<in> set opened. ''time'' \<notin> set (dims ds)"
  shows "valid_datasets strptime ftype opened =
     map (expanded strptime ftype) (filter (parseable strptime ftype) opened)"
  using assms
proof (induction opened)
  case Nil
  show ?case by (simp add: valid_datasets_def map_filter_simps)
next
  case (Cons ds opened)
  then have "''time'' \<notin> set (dims ds)" and
    IH: "valid_datasets strptime ftype opened =
      map (expanded strptime ftype) (filter (parseable strptime ftype) opened)"
    by simp_all
  then show ?case
    unfolding valid_datasets_def
    by (simp add: map_filter_simps add_time_coordinate_cases)
qed

lemma warnings_filter:
  assumes "\<forall>ds \<in> set opened. ''time'' \<notin> set (dims ds)"
  shows "concat (map (\<lambda>ds. fst (add_time_coordinate strptime ftype ds)) opened) =
     map skip_warning (filter (\<lambda>ds. \<not> parseable strptime ftype ds) opened)"
  using assms by (induction opened) (simp_all add: add_time_coordinate_cases)

section \<open>Evaluating the small examples\<close>

lemma upt_2: "[0..<2] = [0, 1]" by (simp add: upt_rec)

lemma sqrt_25 [simp]: "sqrt 25 = 5" by (rule real_sqrt_unique) simp_all

lemma sqrt_100 [simp]: "sqrt 100 = 10" by (rule real_sqrt_unique) simp_all

lemmas example_simps =
  track_typhoon_def calculate_intensity_def find_center_def cell_value_def sel_box_def
  lat_slice_def slice_indexer_def max_wind_of_def wind_speed_def tracking_radius_def
  get_intensity_category_def example_grid_def example_mslp_def example_u_def example_v_def
  example_track_def example_rows_def upt_2

lemma example_track_run: "track_typhoon example_grid 20 120 3 = Inr example_track"
  by (simp add: example_simps)


section \<open>The classifier on and between the listed ranges\<close>

text \<open>
  On each range of its docstring the classifier answers with that range's category.
\<close>

lemma category_on_listed_ranges:
  "w < 10.8 \<Longrightarrow> get_intensity_category w = (''Low Pressure (<10.8)'', ''gray'')"
  "10.8 \<le> w \<Longrightarrow> w \<le> 17.1 \<Longrightarrow>
     get_intensity_category w = (''Tropical Depression (TD)'', ''skyblue'')"
  "17.2 \<le> w \<Longrightarrow> w \<le> 24.4 \<Longrightarrow>
     get_intensity_category w = (''Tropical Storm (TS)'', ''blue'')"
  "24.5 \<le> w \<Longrightarrow> w \<le> 32.6 \<Longrightarrow>
     get_intensity_category w = (''Severe Tropical Storm (STS)'', ''green'')"
  "32.7 \<le> w \<Longrightarrow> w \<le> 41.4 \<Longrightarrow>
     get_intensity_category w = (''Typhoon (TY)'', ''yellow'')"
  "41.5 \<le> w \<Longrightarrow> w \<le> 50.9 \<Longrightarrow>
     get_intensity_category w = (''Severe Typhoon (STY)'', ''orange'')"
  "51.0 \<le> w \<Longrightarrow> get_intensity_category w = (''Super Typhoon (SuperTY)'', ''red'')"
  by (simp_all add: get_intensity_category_def)

text \<open>
  Claim C1. Every non-negative wind speed is to fall into exactly one of the listed
  ranges and to receive that range's category. The ranges of the code are closed
  intervals with the end points 17.1 and 17.2, 24.4 and 24.5, and so on, so a wind
  speed strictly between two neighbouring end points satisfies no test of the chain
  and reaches the final \<^verbatim>\<open>else\<close>: 17.15 m/s is reported as a Super Typhoon, the
  category the docstring reserves for 51.0 m/s and above.
\<close>

theorem C1_gap_falls_through_to_SuperTY:
  "(17.1::real) < 17.15 \<and> (17.15::real) < 17.2 \<and> (17.15::real) < 51.0 \<and>
   get_intensity_category 17.15 = (''Super Typhoon (SuperTY)'', ''red'')"
  by (simp add: get_intensity_category_def)

text \<open>
  Claim C2. Raising the correction factor is never to lower the category of the
  corrected wind. With a raw maximum wind of 12.25 m/s the default factor 1.4 gives
  17.15 m/s, which falls between the ranges and is reported as Super Typhoon (rank 6),
  while the larger factor 1.5 gives 18.375 m/s, a Tropical Storm (rank 2).
\<close>

theorem C2_larger_factor_lowers_category:
  "(1.4::real) \<le> 1.5 \<and>
   category_rank (fst (get_intensity_category (12.25 * 1.4))) = 6 \<and>
   category_rank (fst (get_intensity_category (12.25 * 1.5))) = 2"
  by (simp add: get_intensity_category_def category_rank_def)

section \<open>Loss of signal\<close>










section \<open>The recurrence of the tracker\<close>

text \<open>
  Claim C4. Tracking is a first-order recurrence. For a non-negative search radius and
  every row \<open>k\<close> of the result: the row belongs to the \<open>k\<close>-th time; it is what the
  locator returns for that time and the position of the row before (the seed for the
  first row), so nothing else of the past enters; the cells the locator looked at are
  exactly the cells of the square of that half-width around that position; and the
  recorded position is a cell of the square whose pressure at that time is least in the
  square.
\<close>

theorem C4_first_order_recurrence:
  assumes "track_typhoon ds start_lat start_lon r = Inr pts" and "0 \<le> r" and "k < length pts"
  shows "\<exists>mslp cells c. mean_sea_level_pressure ds = Some mslp \<and>
     (let center_lat = (if k = 0 then start_lat else latitude (pts ! (k - 1)));
          center_lon = (if k = 0 then start_lon else longitude (pts ! (k - 1)));
          t = ds_time ds ! k
      in time (pts ! k) = t \<and>
         find_center ds mslp t center_lat center_lon r =
           Inr (Some (latitude (pts ! k), longitude (pts ! k), min_pressure (pts ! k))) \<and>
         sel_box ds center_lat center_lon r = Inr cells \<and>
         set cells = {c. in_square ds center_lat center_lon r c} \<and>
         in_square ds center_lat center_lon r c \<and>
         latitude (pts ! k) = ds_latitude ds ! fst c \<and>
         longitude (pts ! k) = ds_longitude ds ! snd c \<and>
         (\<forall>c'. in_square ds center_lat center_lon r c' \<longrightarrow>
            mslp t (fst c) (snd c) \<le> mslp t (fst c') (snd c')))"
proof -
  from assms(1) obtain mslp where mslp: "mean_sea_level_pressure ds = Some mslp"
    and run: "track_loop ds mslp r (ds_time ds) start_lat start_lon [] = Inr pts"
    by (auto simp: track_typhoon_def split: option.splits)
  define center_lat where "center_lat = (if k = 0 then start_lat else latitude (pts ! (k - 1)))"
  define center_lon where "center_lon = (if k = 0 then start_lon else longitude (pts ! (k - 1)))"
  define t where "t = ds_time ds ! k"
  from track_loop_nth [OF run assms(3)]
  have tm: "time (pts ! k) = t" and
    fc: "find_center ds mslp t center_lat center_lon r
     = Inr (Some (latitude (pts ! k), longitude (pts ! k), min_pressure (pts ! k)))"
    by (simp_all add: center_lat_def center_lon_def t_def)
  from fc obtain cells c where sel: "sel_box ds center_lat center_lon r = Inr cells"
    and c: "c \<in> set cells"
    and lab: "latitude (pts ! k) = ds_latitude ds ! fst c" "longitude (pts ! k) = ds_longitude ds ! snd c"
    and mp: "min_pressure (pts ! k) = cell_value mslp t c"
    and least: "\<forall>c' \<in> set cells. cell_value mslp t c \<le> cell_value mslp t c'"
    by (rule find_center_Some)
  from c have ne: "cells \<noteq> []" by auto
  have sq: "set cells = {c. in_square ds center_lat center_lon r c}"
    using sel ne assms(2) by (rule sel_box_square)
  have inside: "in_square ds center_lat center_lon r c" using c sq by simp
  have low: "\<forall>c'. in_square ds center_lat center_lon r c' \<longrightarrow>
            mslp t (fst c) (snd c) \<le> mslp t (fst c') (snd c')"
    using least sq by (simp add: cell_value_def)
  have "mean_sea_level_pressure ds = Some mslp \<and>
     (time (pts ! k) = t \<and>
         find_center ds mslp t center_lat center_lon r =
           Inr (Some (latitude (pts ! k), longitude (pts ! k), min_pressure (pts ! k))) \<and>
         sel_box ds center_lat center_lon r = Inr cells \<and>
         set cells = {c. in_square ds center_lat center_lon r c} \<and>
         in_square ds center_lat center_lon r c \<and>
         latitude (pts ! k) = ds_latitude ds ! fst c \<and>
         longitude (pts ! k) = ds_longitude ds ! snd c \<and>
         (\<forall>c'. in_square ds center_lat center_lon r c' \<longrightarrow>
            mslp t (fst c) (snd c) \<le> mslp t (fst c') (snd c')))"
    using mslp tm fc sel sq inside lab low by simp
  then have "\<exists>mslp cells c. mean_sea_level_pressure ds = Some mslp \<and>
     (time (pts ! k) = t \<and>
         find_center ds mslp t center_lat center_lon r =
           Inr (Some (latitude (pts ! k), longitude (pts ! k), min_pressure (pts ! k))) \<and>
         sel_box ds center_lat center_lon r = Inr cells \<and>
         set cells = {c. in_square ds center_lat center_lon r c} \<and>
         in_square ds center_lat center_lon r c \<and>
         latitude (pts ! k) = ds_latitude ds ! fst c \<and>
         longitude (pts ! k) = ds_longitude ds ! snd c \<and>
         (\<forall>c'. in_square ds center_lat center_lon r c' \<longrightarrow>
            mslp t (fst c) (snd c) \<le> mslp t (fst c') (snd c')))"
    by (intro exI)
  then show ?thesis
    by (simp only: Let_def center_lat_def center_lon_def t_def)
qed

text \<open>The second row of the track over the small grid, found from the first.\<close>

theorem C4_witness:
  "track_typhoon example_grid 20 120 3 = Inr example_track \<and> (0::real) \<le> 3 \<and>
   1 < length example_track \<and> time (example_track ! 1) = 1 \<and>
   find_center example_grid example_mslp 1 20 122 3 = Inr (Some (18, 122, 98500))"
proof -
  have h2: "(0::real) \<le> 3" by simp
  have h3: "1 < length example_track" by (simp add: example_track_def)
  from C4_first_order_recurrence [OF example_track_run h2 h3]
  obtain mslp where "mean_sea_level_pressure example_grid = Some mslp"
    and "time (example_track ! 1) = ds_time example_grid ! 1"
    and "find_center example_grid mslp (ds_time example_grid ! 1)
           (latitude (example_track ! 0)) (longitude (example_track ! 0)) 3 =
         Inr (Some (latitude (example_track ! 1), longitude (example_track ! 1),
                    min_pressure (example_track ! 1)))"
    by (auto simp: Let_def)
  then have "time (example_track ! 1) = 1 \<and>
     find_center example_grid example_mslp 1 20 122 3 = Inr (Some (18, 122, 98500))"
    by (simp add: example_grid_def example_track_def)
  with example_track_run h2 h3 show ?thesis by simp
qed

text \<open>
  Claim C10. The pressure of a row is the value of the pressure field, at the time of the
  row, in a cell of the grid that carries the latitude and the longitude of the row: the
  position read at \<^verbatim>\<open>argmin\<close> and the value returned by \<^verbatim>\<open>min\<close> belong to
  one cell. On axes without repeated labels that cell is the only one with these labels,
  so the pressure of the row is the value of the grid at the recorded time, latitude and
  longitude.
\<close>

theorem C10_pressure_at_recorded_cell:
  assumes "track_typhoon ds start_lat start_lon r = Inr pts" and "k < length pts"
  shows "\<exists>mslp i j. mean_sea_level_pressure ds = Some mslp \<and>
     i < length (ds_latitude ds) \<and> j < length (ds_longitude ds) \<and>
     ds_latitude ds ! i = latitude (pts ! k) \<and> ds_longitude ds ! j = longitude (pts ! k) \<and>
     mslp (time (pts ! k)) i j = min_pressure (pts ! k) \<and>
     (distinct (ds_latitude ds) \<and> distinct (ds_longitude ds) \<longrightarrow>
        (\<forall>i' j'. i' < length (ds_latitude ds) \<and> j' < length (ds_longitude ds) \<and>
           ds_latitude ds ! i' = latitude (pts ! k) \<and> ds_longitude ds ! j' = longitude (pts ! k)
           \<longrightarrow> mslp (time (pts ! k)) i' j' = min_pressure (pts ! k)))"
proof -
  from assms(1) obtain mslp where mslp: "mean_sea_level_pressure ds = Some mslp"
    and run: "track_loop ds mslp r (ds_time ds) start_lat start_lon [] = Inr pts"
    by (auto simp: track_typhoon_def split: option.splits)
  from track_loop_nth [OF run assms(2)]
  have fc: "find_center ds mslp (time (pts ! k))
       (if k = 0 then start_lat else latitude (pts ! (k - 1)))
       (if k = 0 then start_lon else longitude (pts ! (k - 1))) r
     = Inr (Some (latitude (pts ! k), longitude (pts ! k), min_pressure (pts ! k)))"
    by simp
  from fc obtain cells c where
    sel: "sel_box ds (if k = 0 then start_lat else latitude (pts ! (k - 1)))
       (if k = 0 then start_lon else longitude (pts ! (k - 1))) r = Inr cells"
    and c: "c \<in> set cells"
    and la: "latitude (pts ! k) = ds_latitude ds ! fst c"
    and lo: "longitude (pts ! k) = ds_longitude ds ! snd c"
    and mp: "min_pressure (pts ! k) = cell_value mslp (time (pts ! k)) c"
    by (rule find_center_Some)
  note b = sel_box_bounds [OF sel c]
  have same: "mslp (time (pts ! k)) i' j' = min_pressure (pts ! k)"
    if "distinct (ds_latitude ds)" "distinct (ds_longitude ds)"
      "i' < length (ds_latitude ds)" "j' < length (ds_longitude ds)"
      "ds_latitude ds ! i' = latitude (pts ! k)" "ds_longitude ds ! j' = longitude (pts ! k)"
    for i' j'
  proof -
    from that(1,3,5) b(1) have "i' = fst c" unfolding la by (simp add: nth_eq_iff_index_eq)
    moreover from that(2,4,6) b(2) have "j' = snd c" unfolding lo by (simp add: nth_eq_iff_index_eq)
    ultimately show ?thesis by (simp add: mp cell_value_def)
  qed
  have uniq: "distinct (ds_latitude ds) \<and> distinct (ds_longitude ds) \<longrightarrow>
        (\<forall>i' j'. i' < length (ds_latitude ds) \<and> j' < length (ds_longitude ds) \<and>
           ds_latitude ds ! i' = latitude (pts ! k) \<and> ds_longitude ds ! j' = longitude (pts ! k)
           \<longrightarrow> mslp (time (pts ! k)) i' j' = min_pressure (pts ! k))"
    by (intro impI allI, elim conjE, rule same)
  have val: "mslp (time (pts ! k)) (fst c) (snd c) = min_pressure (pts ! k)"
    by (simp add: mp cell_value_def)
  show ?thesis
    using mslp b la [symmetric] lo [symmetric] val uniq
    by (intro exI [of _ mslp] exI [of _ "fst c"] exI [of _ "snd c"] conjI)
qed

text \<open>
  The second row of the track over the small grid: its pressure is the value of the
  south-east cell at the second time.
\<close>

theorem C10_witness:
  "track_typhoon example_grid 20 120 3 = Inr example_track \<and> 1 < length example_track \<and>
   distinct (ds_latitude example_grid) \<and> distinct (ds_longitude example_grid) \<and>
   example_mslp 1 1 1 = min_pressure (example_track ! 1)"
proof -
  have h2: "1 < length example_track" by (simp add: example_track_def)
  have d: "distinct (ds_latitude example_grid)" "distinct (ds_longitude example_grid)"
    by (simp_all add: example_grid_def)
  from C10_pressure_at_recorded_cell [OF example_track_run h2] obtain mslp where
    m: "mean_sea_level_pressure example_grid = Some mslp" and
    u: "\<forall>i' j'. i' < length (ds_latitude example_grid) \<and> j' < length (ds_longitude example_grid) \<and>
           ds_latitude example_grid ! i' = latitude (example_track ! 1) \<and>
           ds_longitude example_grid ! j' = longitude (example_track ! 1)
           \<longrightarrow> mslp (time (example_track ! 1)) i' j' = min_pressure (example_track ! 1)"
    using d by blast
  from m have "mslp = example_mslp" by (simp add: example_grid_def)
  moreover have "time (example_track ! 1) = 1" by (simp add: example_track_def)
  moreover have "1 < length (ds_latitude example_grid) \<and> 1 < length (ds_longitude example_grid) \<and>
           ds_latitude example_grid ! 1 = latitude (example_track ! 1) \<and>
           ds_longitude example_grid ! 1 = longitude (example_track ! 1)"
    by (simp add: example_grid_def example_track_def)
  ultimately have "example_mslp 1 1 1 = min_pressure (example_track ! 1)"
    using u by metis
  with example_track_run h2 d show ?thesis by simp
qed

text \<open>
  In plain words \<open>single_minimum\<close> says: \<open>m\<close> is in the square, and strictly below every
  other cell in the square.
\<close>

lemma single_minimum_iff:
  "single_minimum ds mslp t la lo r m \<longleftrightarrow>
     in_square ds la lo r m \<and>
     (\<forall>c. in_square ds la lo r c \<and> c \<noteq> m \<longrightarrow> cell_value mslp t m < cell_value mslp t c)"
proof -
  have "c \<in> set (grid_cells ds)" if "in_square ds la lo r c" for c
    using that by (simp add: set_grid_cells in_square_def)
  then show ?thesis unfolding single_minimum_def list_all_iff by blast
qed

text \<open>
  The small grid stored with its longitudes from east to west has a single, unambiguous
  pressure minimum inside the square window at both time steps (the cells of the eastern
  column, now the first column), yet the tracker selects no cell at the first step and
  returns no row: the longitude slice runs from \<^verbatim>\<open>lon_min\<close> to \<^verbatim>\<open>lon_max\<close>
  on an axis that decreases.
\<close>

theorem C6_counterexample:
  "mean_sea_level_pressure (flip_longitude example_grid) = Some (flip_cols 2 example_mslp) \<and>
   single_minima (flip_longitude example_grid) (flip_cols 2 example_mslp) 3
     (ds_time (flip_longitude example_grid)) 20 120 [(0, 0), (1, 0)] \<and>
   track_typhoon (flip_longitude example_grid) 20 120 3 = Inr []"
  by (simp add: single_minimum_def in_square_def grid_cells_def flip_longitude_def
      flip_cols_def example_simps)

text \<open>
  Claim C6, amended. On a grid whose longitude axis is increasing and whose latitude axis
  is increasing or decreasing with a first label different from its last, and which has a
  single, unambiguous pressure minimum inside the square search window at every time
  step, the window of each step being centred on the minimum of the step before, the
  tracker returns a row for every time and each row carries the latitude and the longitude
  of that step's minimum. Nothing is said about a latitude axis whose first and last
  labels agree.
\<close>

theorem C6_recovers_single_minimum:
  assumes "mean_sea_level_pressure ds = Some mslp"
    and "sorted (ds_longitude ds)"
    and "sorted (ds_latitude ds) \<or> sorted (rev (ds_latitude ds))"
    and "ds_latitude ds \<noteq> []" and "hd (ds_latitude ds) \<noteq> last (ds_latitude ds)"
    and "single_minima ds mslp r (ds_time ds) start_lat start_lon ms"
  shows "\<exists>pts. track_typhoon ds start_lat start_lon r = Inr pts \<and>
     length pts = length (ds_time ds) \<and>
     map (\<lambda>p. (time p, latitude p, longitude p)) pts =
     map2 (\<lambda>t m. (t, ds_latitude ds ! fst m, ds_longitude ds ! snd m)) (ds_time ds) ms"
proof -
  have wo: "well_oriented ds" using assms(2-5) by (rule well_oriented_by_order)
  from single_minima_track_loop [OF wo assms(6)] obtain pts where
    run: "track_loop ds mslp r (ds_time ds) start_lat start_lon [] = Inr pts"
    and cols: "map (\<lambda>p. (time p, latitude p, longitude p, min_pressure p)) pts =
      map2 (\<lambda>t m. (t, ds_latitude ds ! fst m, ds_longitude ds ! snd m, cell_value mslp t m))
        (ds_time ds) ms"
    and len: "length ms = length (ds_time ds)"
    by (elim exE conjE)
  from arg_cong [OF cols, of length] len have l: "length pts = length (ds_time ds)" by simp
  have "map (\<lambda>p. (time p, latitude p, longitude p)) pts =
     map (\<lambda>q. (fst q, fst (snd q), fst (snd (snd q))))
       (map (\<lambda>p. (time p, latitude p, longitude p, min_pressure p)) pts)"
    by simp
  also have "\<dots> = map2 (\<lambda>t m. (t, ds_latitude ds ! fst m, ds_longitude ds ! snd m)) (ds_time ds) ms"
    unfolding cols by (simp add: case_prod_beta)
  finally have "map (\<lambda>p. (time p, latitude p, longitude p)) pts =
     map2 (\<lambda>t m. (t, ds_latitude ds ! fst m, ds_longitude ds ! snd m)) (ds_time ds) ms" .
  with run l assms(1) show ?thesis by (simp add: track_typhoon_def)
qed

text \<open>
  The small grid as it is stored (latitudes from north to south, longitudes from west to
  east): its two minima lie in the square windows and are recovered.
\<close>

theorem C6_witness:
  "mean_sea_level_pressure example_grid = Some example_mslp \<and>
   sorted (ds_longitude example_grid) \<and> sorted (rev (ds_latitude example_grid)) \<and>
   ds_latitude example_grid \<noteq> [] \<and>
   hd (ds_latitude example_grid) \<noteq> last (ds_latitude example_grid) \<and>
   single_minima example_grid example_mslp 3 (ds_time example_grid) 20 120 [(0, 1), (1, 1)] \<and>
   (\<exists>pts. track_typhoon example_grid 20 120 3 = Inr pts \<and> length pts = 2 \<and>
      map (\<lambda>p. (time p, latitude p, longitude p)) pts = [(0, 20, 122), (1, 18, 122)])"
proof -
  have h1: "mean_sea_level_pressure example_grid = Some example_mslp"
    by (simp add: example_grid_def)
  have h2: "sorted (ds_longitude example_grid)" by (simp add: example_grid_def)
  have h3: "sorted (rev (ds_latitude example_grid))" by (simp add: example_grid_def)
  have h4: "ds_latitude example_grid \<noteq> []" by (simp add: example_grid_def)
  have h5: "hd (ds_latitude example_grid) \<noteq> last (ds_latitude example_grid)"
    by (simp add: example_grid_def)
  have h6: "single_minima example_grid example_mslp 3 (ds_time example_grid) 20 120 [(0, 1), (1, 1)]"
    by (simp add: single_minimum_def in_square_def grid_cells_def example_simps)
  from C6_recovers_single_minimum [OF h1 h2 disjI2 [OF h3] h4 h5 h6]
  have "\<exists>pts. track_typhoon example_grid 20 120 3 = Inr pts \<and> length pts = 2 \<and>
      map (\<lambda>p. (time p, latitude p, longitude p)) pts = [(0, 20, 122), (1, 18, 122)]"
    by (simp add: example_grid_def numeral_2_eq_2)
  with h1 h2 h3 h4 h5 h6 show ?thesis by (intro conjI)
qed

section \<open>Orientation of the axes\<close>

text \<open>
  The longitude slice is always taken from \<^verbatim>\<open>lon_min\<close> to \<^verbatim>\<open>lon_max\<close>
  (\<^verbatim>\<open># Longitude is usually 0-360 ascending\<close>); only the latitude axis is tested.
  The small grid stored with its longitudes from east to west loses every cell of a
  window that holds four cells in the stored order.
\<close>

theorem C5_counterexample:
  "sorted (ds_longitude example_grid) \<and>
   window_cells example_grid example_mslp 0 20 120 3 =
     Inr {(20, 120, 100000), (20, 122, 99000), (18, 120, 100001), (18, 122, 100002)} \<and>
   window_cells (flip_longitude example_grid) (flip_cols 2 example_mslp) 0 20 120 3 = Inr {}"
  by (simp add: window_cells_def flip_longitude_def flip_cols_def example_simps)

text \<open>
  Claim C5, amended. The window selection tests the order of the latitude axis only. For
  a grid whose latitude axis is increasing with a first label below its last, the same
  window selects the same cells, with the same labels and values, when the grid is
  stored with the latitude axis reversed; the longitude axis is the same in both and is
  sliced as an increasing one. Nothing is said about a latitude axis whose first and
  last labels agree.
\<close>

theorem C5_latitude_orientation:
  assumes "ds_latitude ds \<noteq> []" and "sorted (ds_latitude ds)"
    and "hd (ds_latitude ds) < last (ds_latitude ds)"
  shows "window_cells (flip_latitude ds) (flip_rows (length (ds_latitude ds)) var) t
           center_lat center_lon radius
         = window_cells ds var t center_lat center_lon radius"
proof -
  define lat where "lat = ds_latitude ds"
  define n where "n = length lat"
  define lo where "lo = min (center_lat - radius) (center_lat + radius)"
  define hi where "hi = max (center_lat - radius) (center_lat + radius)"
  define rows where "rows = filter (\<lambda>i. lo \<le> lat ! i \<and> lat ! i \<le> hi) [0..<n]"
  define rows' where "rows' = filter (\<lambda>i. lo \<le> rev lat ! i \<and> rev lat ! i \<le> hi) [0..<n]"
  have ne: "lat \<noteq> []" and asc: "sorted lat" and lt: "hd lat < last lat"
    using assms by (simp_all add: lat_def)
  have not_desc: "\<not> sorted (rev lat)"
    using sorted_rev_hd_last [of lat] ne lt by auto
  have s1: "lat_slice ds (center_lat - radius) (center_lat + radius) = Inr (lo, hi)"
    using ne lt by (simp add: lat_slice_def lat_def lo_def hi_def)
  have i1: "slice_indexer (ds_latitude ds) lo hi = Inr rows"
    using asc by (simp add: slice_indexer_def lat_def rows_def n_def)
  have s2: "lat_slice (flip_latitude ds) (center_lat - radius) (center_lat + radius) = Inr (hi, lo)"
    using ne lt by (simp add: lat_slice_def lat_def [symmetric] lo_def hi_def hd_rev last_rev)
  have i2: "slice_indexer (ds_latitude (flip_latitude ds)) hi lo = Inr rows'"
    using asc not_desc by (simp add: slice_indexer_def lat_def [symmetric] rows'_def n_def)
  have j2: "slice_indexer (ds_longitude (flip_latitude ds)) (center_lon - radius) (center_lon + radius)
      = slice_indexer (ds_longitude ds) (center_lon - radius) (center_lon + radius)"
    by simp
  note b1 = sel_box_from_slices [OF s1 i1 refl]
  note b2 = sel_box_from_slices [OF s2 i2 j2]
  have mirror: "set rows' = (\<lambda>i. n - 1 - i) ` set rows"
    unfolding rows'_def rows_def n_def by (rule mirrored_positions)
  have bound: "\<And>i. i \<in> set rows \<Longrightarrow> i < n" by (simp add: rows_def)
  show ?thesis
  proof (cases "slice_indexer (ds_longitude ds) (center_lon - radius) (center_lon + radius)")
    case (Inl e)
    then show ?thesis by (simp add: window_cells_def b1 b2)
  next
    case (Inr cols)
    have "(\<lambda>c. (rev lat ! fst c, ds_longitude ds ! snd c, cell_value (flip_rows n var) t c)) ` (set rows' \<times> set cols)
        = (\<lambda>c. (lat ! fst c, ds_longitude ds ! snd c, cell_value var t c)) ` (set rows \<times> set cols)"
      (is "?L = ?R")
    proof (intro set_eqI iffI)
      fix x assume "x \<in> ?L"
      then obtain i' j where ij: "i' \<in> set rows'" "j \<in> set cols"
        and x: "x = (rev lat ! i', ds_longitude ds ! j, cell_value (flip_rows n var) t (i', j))" by auto
      from ij(1) mirror obtain i where i: "i \<in> set rows" "i' = n - 1 - i" by auto
      from bound [OF i(1)] i(2) have "rev lat ! i' = lat ! i" "n - 1 - i' = i"
        by (simp_all add: rev_nth n_def)
      with x have "x = (lat ! i, ds_longitude ds ! j, cell_value var t (i, j))"
        by (simp add: cell_value_def flip_rows_def)
      with i(1) ij(2) show "x \<in> ?R" by force
    next
      fix x assume "x \<in> ?R"
      then obtain i j where ij: "i \<in> set rows" "j \<in> set cols"
        and x: "x = (lat ! i, ds_longitude ds ! j, cell_value var t (i, j))" by auto
      define i' where "i' = n - 1 - i"
      from ij(1) mirror have i': "i' \<in> set rows'" by (simp add: i'_def)
      from bound [OF ij(1)] have "rev lat ! i' = lat ! i" "n - 1 - i' = i"
        by (simp_all add: rev_nth n_def i'_def)
      with x have "x = (rev lat ! i', ds_longitude ds ! j, cell_value (flip_rows n var) t (i', j))"
        by (simp add: cell_value_def flip_rows_def)
      with i' ij(2) show "x \<in> ?L" by force
    qed
    then show ?thesis
      by (simp add: window_cells_def b1 b2 Inr lat_def [symmetric] n_def [symmetric])
  qed
qed

text \<open>The small grid, read from south to north and from north to south.\<close>

theorem C5_witness:
  "ds_latitude (flip_latitude example_grid) \<noteq> [] \<and>
   sorted (ds_latitude (flip_latitude example_grid)) \<and>
   hd (ds_latitude (flip_latitude example_grid)) < last (ds_latitude (flip_latitude example_grid)) \<and>
   window_cells (flip_latitude (flip_latitude example_grid))
     (flip_rows 2 (flip_rows 2 example_mslp)) 0 20 120 3 =
   window_cells (flip_latitude example_grid) (flip_rows 2 example_mslp) 0 20 120 3 \<and>
   window_cells (flip_latitude example_grid) (flip_rows 2 example_mslp) 0 20 120 3 =
     Inr {(20, 120, 100000), (20, 122, 99000), (18, 120, 100001), (18, 122, 100002)}"
proof -
  have h1: "ds_latitude (flip_latitude example_grid) \<noteq> []"
    and h2: "sorted (ds_latitude (flip_latitude example_grid))"
    and h3: "hd (ds_latitude (flip_latitude example_grid)) < last (ds_latitude (flip_latitude example_grid))"
    by (simp_all add: flip_latitude_def example_grid_def)
  have len: "length (ds_latitude (flip_latitude example_grid)) = 2"
    by (simp add: flip_latitude_def example_grid_def)
  have val: "window_cells (flip_latitude example_grid) (flip_rows 2 example_mslp) 0 20 120 3 =
     Inr {(20, 120, 100000), (20, 122, 99000), (18, 120, 100001), (18, 122, 100002)}"
    by (simp add: window_cells_def flip_latitude_def flip_rows_def example_simps insert_commute)
  have eq: "window_cells (flip_latitude (flip_latitude example_grid))
     (flip_rows 2 (flip_rows 2 example_mslp)) 0 20 120 3 =
   window_cells (flip_latitude example_grid) (flip_rows 2 example_mslp) 0 20 120 3"
    using C5_latitude_orientation [OF h1 h2 h3, of "flip_rows 2 example_mslp" 0 20 120 3]
    unfolding len .
  show ?thesis using h1 h2 h3 eq val by (intro conjI)
qed

section \<open>Wind and category along the track\<close>



text \<open>
  Claim C9. Two runs of \<^verbatim>\<open>calculate_intensity\<close> on the same grid and seed that differ
  in the intensity radius and in the correction factor agree in the outcome (rows or
  error), in the number of rows and, row by row, in time, latitude, longitude and minimum
  pressure.
\<close>

theorem C9_tracking_independent_of_intensity_parameters:
  "map_sum id (map track_columns) (calculate_intensity ds start_lat start_lon r1 f1) =
   map_sum id (map track_columns) (calculate_intensity ds start_lat start_lon r2 f2)"
  by (simp add: calculate_intensity_def intensity_loop_track_columns split: option.splits)

section \<open>Skipping files without a time stamp\<close>

text \<open>
  For files of single time steps that have no time dimension of their own,
  \<^verbatim>\<open>add_time_coordinate\<close> returns the skip marker, with one warning, for exactly the
  files whose name gives no time stamp, and the expanded dataset without a warning for
  the others; the datasets kept are the expanded parseable files, all of them and in
  their order; and the script prints the warnings of the skipped files and combines the
  files kept (it exits only when none is kept).
\<close>

lemma files_without_time_dimension:
  assumes "\<forall>ds \<in> set opened. ''time'' \<notin> set (dims ds)"
  shows "(\<forall>ds \<in> set opened.
            add_time_coordinate strptime ftype ds =
              (if parseable strptime ftype ds then ([], Some (expanded strptime ftype ds))
               else ([skip_warning ds], None))) \<and>
         valid_datasets strptime ftype opened =
           map (expanded strptime ftype) (filter (parseable strptime ftype) opened) \<and>
         combine_netcdf strptime ftype opened =
           (map skip_warning (filter (\<lambda>ds. \<not> parseable strptime ftype ds) opened),
            if filter (parseable strptime ftype) opened = [] then None
            else Some (map (expanded strptime ftype) (filter (parseable strptime ftype) opened)))"
proof (intro conjI ballI)
  fix ds assume "ds \<in> set opened"
  with assms have "''time'' \<notin> set (dims ds)" by simp
  then show "add_time_coordinate strptime ftype ds =
      (if parseable strptime ftype ds then ([], Some (expanded strptime ftype ds))
       else ([skip_warning ds], None))"
    by (rule add_time_coordinate_cases)
next
  show "valid_datasets strptime ftype opened =
      map (expanded strptime ftype) (filter (parseable strptime ftype) opened)"
    using assms by (rule valid_datasets_filter)
next
  show "combine_netcdf strptime ftype opened =
      (map skip_warning (filter (\<lambda>ds. \<not> parseable strptime ftype ds) opened),
       if filter (parseable strptime ftype) opened = [] then None
       else Some (map (expanded strptime ftype) (filter (parseable strptime ftype) opened)))"
    by (simp add: combine_netcdf_def Let_def valid_datasets_filter [OF assms]
        warnings_filter [OF assms])
qed

text \<open>
  Of three files the second is skipped with its warning and the other two are combined.
\<close>

lemma example_files_combined:
  "list_all (\<lambda>ds. ''time'' \<notin> set (dims ds)) example_files \<and>
   map (parseable example_strptime ''surface'') example_files = [True, False, True] \<and>
   combine_netcdf example_strptime ''surface'' example_files =
     ([''Warning: Could not parse time from filename: output_surface_latest.nc. Skipping.''],
      Some [expanded example_strptime ''surface'' (example_files ! 0),
            expanded example_strptime ''surface'' (example_files ! 2)])"
proof -
  have h: "\<forall>ds \<in> set example_files. ''time'' \<notin> set (dims ds)"
    by (simp add: example_files_def)
  have p: "map (parseable example_strptime ''surface'') example_files = [True, False, True]"
    by (simp add: parseable_def example_strptime_def example_files_def time_str_of_def
        basename_def replace_def)
  have f: "filter (parseable example_strptime ''surface'') example_files =
      [example_files ! 0, example_files ! 2]"
    "filter (\<lambda>ds. \<not> parseable example_strptime ''surface'' ds) example_files = [example_files ! 1]"
    using p by (simp_all add: example_files_def)
  have w: "skip_warning (example_files ! 1) =
      ''Warning: Could not parse time from filename: output_surface_latest.nc. Skipping.''"
    by (simp add: skip_warning_def example_files_def basename_def)
  then have w': "skip_warning (example_files ! Suc 0) =
      ''Warning: Could not parse time from filename: output_surface_latest.nc. Skipping.''"
    by simp
  from files_without_time_dimension [OF h, of example_strptime "''surface''"]
  have "combine_netcdf example_strptime ''surface'' example_files =
     ([''Warning: Could not parse time from filename: output_surface_latest.nc. Skipping.''],
      Some [expanded example_strptime ''surface'' (example_files ! 0),
            expanded example_strptime ''surface'' (example_files ! 2)])"
    by (simp add: f w')
  with h p show ?thesis by (simp add: list_all_iff)
qed

text \<open>
  Claim C8. The skip marker is to be returned for exactly the files whose name gives no
  time stamp, and every other file is to be part of the combined result. The call of
  \<^verbatim>\<open>expand_dims\<close> stands inside the same \<^verbatim>\<open>try\<close> as the parser, so its
  \<^verbatim>\<open>ValueError\<close> is taken for a failure to parse: a file whose name gives the time
  stamp 2018-10-01 06:00 and which already has a time dimension is answered with the
  warning ``Could not parse time from filename'' and the skip marker, and the combined
  result of this file and a second, plain one holds the second only.
\<close>

theorem C8_parseable_file_is_skipped:
  "example_strptime (time_str_of ''surface'' example_timed_file) = Some (2018, 10, 1, 6, 0) \<and>
   add_time_coordinate example_strptime ''surface'' example_timed_file =
     ([''Warning: Could not parse time from filename: output_surface_2018-10-01-06-00.nc. Skipping.''],
      None) \<and>
   combine_netcdf example_strptime ''surface'' [example_timed_file, example_files ! 2] =
     ([''Warning: Could not parse time from filename: output_surface_2018-10-01-06-00.nc. Skipping.''],
      Some [expanded example_strptime ''surface'' (example_files ! 2)])"
  by (simp add: combine_netcdf_def valid_datasets_def map_filter_simps add_time_coordinate_def
      expand_dims_time_def skip_warning_def expanded_def example_strptime_def example_files_def
      example_timed_file_def time_str_of_def basename_def replace_def)

end
